theory Spec2Isabelle
  imports Main "HOL-Library.Word"
begin

unbundle bit_operations_syntax

section \<open>JLed: the non-blocking LED effect controller of \<^verbatim>\<open>src/jled.h\<close>\<close>

text \<open>
  The class \<^verbatim>\<open>TJLed<T>\<close> is embedded as a record of its member variables and one HOL
  function per member function. Integer widths are those of the 32-bit targets the header
  names (ESP32, ESP8266): \<^verbatim>\<open>int\<close>, \<^verbatim>\<open>unsigned long\<close> and \<^verbatim>\<open>uintptr_t\<close> are 32 bits wide, so
  \<^verbatim>\<open>uint8_t\<close> and \<^verbatim>\<open>uint16_t\<close> operands are promoted to 32 bits before arithmetic, and
  a mixed signed/unsigned operation is carried out modulo \<open>2 ^ 32\<close>. The value of
  \<^verbatim>\<open>millis()\<close> is an argument of \<open>Update\<close>.

  Operations whose behaviour C++ leaves undefined (division or remainder by zero, a read
  outside the lookup table, a call through a null function pointer) are branches of the
  model that return an error value.
\<close>

subsection \<open>Types and constants\<close>

type_synonym u8 = "8 word"
type_synonym u16 = "16 word"
type_synonym u32 = "32 word"
type_synonym uintptr = "32 word"

datatype error = DivisionByZero | IndexOutOfBounds | NullFunction

text \<open>\<^verbatim>\<open>BrightnessEvalFunction\<close>: \<open>f t period param\<close>. A user supplied function is any value
  of this type.\<close>

type_synonym BrightnessEvalFunction = "u32 \<Rightarrow> u16 \<Rightarrow> uintptr \<Rightarrow> error + u8"

definition kFadeOnTable :: "u8 list" where
  "kFadeOnTable = [0, 3, 13, 33, 68, 118, 179, 232, 255]"

definition kRepeatForever :: u16 where
  "kRepeatForever = 65535"

definition kTimeUndef :: u32 where
  "kTimeUndef = - 1"

definition FL_INVERTED :: u8 where
  "FL_INVERTED = push_bit 0 1"

definition FL_LOW_ACTIVE :: u8 where
  "FL_LOW_ACTIVE = push_bit 1 1"

definition FL_IN_DELAY_PHASE :: u8 where
  "FL_IN_DELAY_PHASE = push_bit 2 1"

definition kFullBrightness :: u8 where
  "kFullBrightness = 255"

definition kZeroBrightness :: u8 where
  "kZeroBrightness = 0"

text \<open>
  Modelled from the spec: the output sink \<^verbatim>\<open>T port_\<close> (the analog writer classes are not
  part of the header). The spec gives it one capability, \<^verbatim>\<open>write(intensity: u8)\<close>; the
  field \<open>port\<close> is the list of the intensities written so far, oldest first.
\<close>

record jled =
  port :: "u8 list"
  brightness_func :: "BrightnessEvalFunction option"
  effect_param :: uintptr
  flags :: u8
  num_repetitions :: u16
  last_update_time :: u32
  delay_before :: u16
  delay_after :: u16
  time_start :: u32
  period :: u16

text \<open>The constructor \<^verbatim>\<open>TJLed(const T& port)\<close> with the default member initialisers.\<close>

definition TJLed :: "u8 list \<Rightarrow> jled" where
  "TJLed p =
     \<lparr>port = p, brightness_func = None, effect_param = 0, flags = 0,
      num_repetitions = 1, last_update_time = kTimeUndef, delay_before = 0,
      delay_after = 0, time_start = kTimeUndef, period = 0\<rparr>"

subsection \<open>Brightness functions\<close>

definition OnFunc :: BrightnessEvalFunction where
  "OnFunc t per param = Inr kFullBrightness"

definition OffFunc :: BrightnessEvalFunction where
  "OffFunc t per param = Inr kZeroBrightness"

definition BlinkFunc :: BrightnessEvalFunction where
  "BlinkFunc t per param = Inr (if t < param then kFullBrightness else kZeroBrightness)"

text \<open>
  \<^verbatim>\<open>FadeOnFunc\<close>. The local \<^verbatim>\<open>t\<close> is reassigned in the source; the scaled value is \<open>ts\<close>
  here. \<^verbatim>\<open>y1 - y0\<close> is an \<^verbatim>\<open>int\<close> that the multiplication with the unsigned \<^verbatim>\<open>t - x0\<close>
  converts to 32 bits unsigned; the result is truncated to \<^verbatim>\<open>uint8_t\<close> on return.
\<close>

definition FadeOnFunc :: BrightnessEvalFunction where
  "FadeOnFunc t per param =
     (if t + 1 \<ge> ucast per then Inr kFullBrightness
      else if per = 0 then Inl DivisionByZero
      else
        let ts = (push_bit 8 t div ucast per) AND 0xff;
            i = drop_bit 5 ts
        in if \<not> unat i + 1 < length kFadeOnTable then Inl IndexOutOfBounds
           else
             let y0 = kFadeOnTable ! unat i;
                 y1 = kFadeOnTable ! (unat i + 1);
                 x0 = push_bit 5 i
             in Inr (ucast (drop_bit 5 ((ts - x0) * (ucast y1 - ucast y0)) + (ucast y0 :: u32))))"

definition FadeOffFunc :: BrightnessEvalFunction where
  "FadeOffFunc t per param = FadeOnFunc (ucast per - t) per 0"

definition BreatheFunc :: BrightnessEvalFunction where
  "BreatheFunc t per param =
     (if t + 1 \<ge> ucast per then Inr kZeroBrightness
      else
        let periodh = drop_bit 1 per
        in if t < ucast periodh then FadeOnFunc t periodh 0
           else FadeOffFunc (t - ucast periodh) periodh 0)"

subsection \<open>Flags, output and evaluation\<close>

definition SetFlags :: "u8 \<Rightarrow> bool \<Rightarrow> jled \<Rightarrow> jled" where
  "SetFlags f val s =
     (if val then s\<lparr>flags := flags s OR f\<rparr> else s\<lparr>flags := flags s AND NOT f\<rparr>)"

definition GetFlag :: "u8 \<Rightarrow> jled \<Rightarrow> bool" where
  "GetFlag f s = (flags s AND f \<noteq> 0)"

definition SetInDelayAfterPhase :: "bool \<Rightarrow> jled \<Rightarrow> jled" where
  "SetInDelayAfterPhase f s = SetFlags FL_IN_DELAY_PHASE f s"

definition IsInDelayAfterPhase :: "jled \<Rightarrow> bool" where
  "IsInDelayAfterPhase s = GetFlag FL_IN_DELAY_PHASE s"

definition IsInverted :: "jled \<Rightarrow> bool" where
  "IsInverted s = GetFlag FL_INVERTED s"

definition IsLowActive :: "jled \<Rightarrow> bool" where
  "IsLowActive s = GetFlag FL_LOW_ACTIVE s"

definition IsForever :: "jled \<Rightarrow> bool" where
  "IsForever s = (num_repetitions s = kRepeatForever)"

definition AnalogWrite :: "u8 \<Rightarrow> jled \<Rightarrow> jled" where
  "AnalogWrite val s =
     (let new_val = (if IsLowActive s then kFullBrightness - val else val)
      in s\<lparr>port := port s @ [new_val]\<rparr>)"

definition EvalBrightness :: "u32 \<Rightarrow> jled \<Rightarrow> error + u8" where
  "EvalBrightness t s =
     (case brightness_func s of
        None \<Rightarrow> Inl NullFunction
      | Some f \<Rightarrow>
          (case f t (period s) (effect_param s) of
             Inl e \<Rightarrow> Inl e
           | Inr val \<Rightarrow> Inr (if IsInverted s then kFullBrightness - val else val)))"

subsection \<open>Update\<close>

text \<open>
  Lines 91 to 118 of \<^verbatim>\<open>Update\<close>: the completion test and the evaluation of the running
  effect, entered once the delay before the effect has elapsed. \<^verbatim>\<open>period_ - 1\<close> is an
  \<^verbatim>\<open>int\<close> converted to the \<^verbatim>\<open>uint32_t\<close> parameter of \<^verbatim>\<open>EvalBrightness\<close>; the remainder is
  taken in 32 bits unsigned and is undefined for a zero divisor.
\<close>

definition Update_effect :: "u32 \<Rightarrow> jled \<Rightarrow> error + (bool \<times> jled)" where
  "Update_effect now s =
     (if \<not> IsForever s \<and>
         now \<ge> time_start s
                 + (ucast (period s) + ucast (delay_after s)) * ucast (num_repetitions s)
      then
        (case EvalBrightness (ucast (period s) - 1) s of
           Inl e \<Rightarrow> Inl e
         | Inr v \<Rightarrow> Inr (False, (AnalogWrite v s)\<lparr>brightness_func := None\<rparr>))
      else if (ucast (period s) + ucast (delay_after s) :: u32) = 0 then Inl DivisionByZero
      else
        let t = (now - time_start s) mod (ucast (period s) + ucast (delay_after s))
        in if t < ucast (period s) then
             (let s1 = SetInDelayAfterPhase False s
              in case EvalBrightness t s1 of
                   Inl e \<Rightarrow> Inl e
                 | Inr v \<Rightarrow> Inr (True, AnalogWrite v s1))
           else if \<not> IsInDelayAfterPhase s then
             (let s1 = SetInDelayAfterPhase True s
              in case EvalBrightness (ucast (period s) - 1) s1 of
                   Inl e \<Rightarrow> Inl e
                 | Inr v \<Rightarrow> Inr (True, AnalogWrite v s1))
           else Inr (True, s))"

text \<open>
  \<^verbatim>\<open>Update\<close>, with \<open>now\<close> the value of \<^verbatim>\<open>millis()\<close>. The result is the returned
  \<^verbatim>\<open>bool\<close> and the object after the call. The new \<^verbatim>\<open>delay_before_\<close> is computed in
  \<^verbatim>\<open>int64_t\<close>, where neither the subtraction nor the maximum can overflow, and stored
  back into 16 bits.
\<close>

definition Update :: "u32 \<Rightarrow> jled \<Rightarrow> error + (bool \<times> jled)" where
  "Update now s =
     (case brightness_func s of
        None \<Rightarrow> Inr (False, s)
      | Some f \<Rightarrow>
          if last_update_time s = now then Inr (True, s)
          else
            let s1 = (if last_update_time s = kTimeUndef
                      then s\<lparr>last_update_time := now,
                              time_start := now + ucast (delay_before s)\<rparr>
                      else s);
                delta_time = now - last_update_time s1;
                s2 = s1\<lparr>last_update_time := now\<rparr>
            in if delay_before s2 > 0 then
                 (let s3 = s2\<lparr>delay_before :=
                                 word_of_int (max 0 (uint (delay_before s2) - uint delta_time))\<rparr>
                  in if delay_before s3 > 0 then Inr (True, s3) else Update_effect now s3)
               else Update_effect now s2)"

text \<open>The polling loop of the sketch: one \<open>Update\<close> per clock value, in order, collecting
  the returned values. An undefined operation ends the run.\<close>

fun Updates :: "u32 list \<Rightarrow> jled \<Rightarrow> error + (bool list \<times> jled)" where
  "Updates [] s = Inr ([], s)"
| "Updates (now # ts) s =
     (case Update now s of
        Inl e \<Rightarrow> Inl e
      | Inr (r, s1) \<Rightarrow>
          (case Updates ts s1 of
             Inl e \<Rightarrow> Inl e
           | Inr (rs, s2) \<Rightarrow> Inr (r # rs, s2)))"

subsection \<open>Configuration\<close>

definition Init :: "BrightnessEvalFunction \<Rightarrow> jled \<Rightarrow> jled" where
  "Init func s =
     s\<lparr>brightness_func := Some func, last_update_time := kTimeUndef,
       time_start := kTimeUndef\<rparr>"

definition On :: "jled \<Rightarrow> jled" where
  "On s = Init OnFunc (s\<lparr>period := 1\<rparr>)"

definition Off :: "jled \<Rightarrow> jled" where
  "Off s = Init OffFunc (s\<lparr>period := 1\<rparr>)"

definition FadeOn :: "u16 \<Rightarrow> jled \<Rightarrow> jled" where
  "FadeOn duration s = Init FadeOnFunc (s\<lparr>period := duration\<rparr>)"

definition FadeOff :: "u16 \<Rightarrow> jled \<Rightarrow> jled" where
  "FadeOff duration s = Init FadeOffFunc (s\<lparr>period := duration\<rparr>)"

definition Breathe :: "u16 \<Rightarrow> jled \<Rightarrow> jled" where
  "Breathe per s = Init BreatheFunc (s\<lparr>period := per\<rparr>)"

text \<open>The sum \<^verbatim>\<open>duration_on + duration_off\<close> is stored into the 16-bit \<^verbatim>\<open>period_\<close>.\<close>

definition Blink :: "u16 \<Rightarrow> u16 \<Rightarrow> jled \<Rightarrow> jled" where
  "Blink duration_on duration_off s =
     Init BlinkFunc (s\<lparr>period := duration_on + duration_off,
                       effect_param := ucast duration_on\<rparr>)"

definition UserFunc :: "BrightnessEvalFunction \<Rightarrow> u16 \<Rightarrow> uintptr \<Rightarrow> jled \<Rightarrow> jled" where
  "UserFunc func per user_param s =
     Init func (s\<lparr>effect_param := user_param, period := per\<rparr>)"

definition Repeat :: "u16 \<Rightarrow> jled \<Rightarrow> jled" where
  "Repeat n s = s\<lparr>num_repetitions := n\<rparr>"

definition Forever :: "jled \<Rightarrow> jled" where
  "Forever s = Repeat kRepeatForever s"

definition DelayBefore :: "u16 \<Rightarrow> jled \<Rightarrow> jled" where
  "DelayBefore d s = s\<lparr>delay_before := d\<rparr>"

definition DelayAfter :: "u16 \<Rightarrow> jled \<Rightarrow> jled" where
  "DelayAfter d s = s\<lparr>delay_after := d\<rparr>"

definition Invert :: "jled \<Rightarrow> jled" where
  "Invert s = SetFlags FL_INVERTED True s"

definition LowActive :: "jled \<Rightarrow> jled" where
  "LowActive s = SetFlags FL_LOW_ACTIVE True s"

definition Stop :: "jled \<Rightarrow> jled" where
  "Stop s = AnalogWrite 0 (s\<lparr>brightness_func := None\<rparr>)"

subsection \<open>Auxiliary: the interpolation in natural numbers\<close>

text \<open>
  The value that \<^verbatim>\<open>FadeOnFunc\<close> interpolates for a scaled time \<open>s\<close> in \<open>0..255\<close>, written
  with natural numbers, where nothing wraps around. It is used to state and prove that
  the 32-bit computation of \<open>FadeOnFunc\<close> and its truncation to 8 bits lose nothing
  (lemma \<open>FadeOnFunc_interpolates\<close>); the controller does not use it.
\<close>

definition fade_on_value :: "nat \<Rightarrow> nat" where
  "fade_on_value s =
     (let i = s div 32;
          y0 = unat (kFadeOnTable ! i);
          y1 = unat (kFadeOnTable ! (i + 1))
      in (s - 32 * i) * (y1 - y0) div 32 + y0)"

lemmas jled_consts =
  kFadeOnTable_def kRepeatForever_def kTimeUndef_def FL_INVERTED_def FL_LOW_ACTIVE_def
  FL_IN_DELAY_PHASE_def kFullBrightness_def kZeroBrightness_def

lemmas jled_flag_ops =
  SetFlags_def GetFlag_def SetInDelayAfterPhase_def IsInDelayAfterPhase_def IsInverted_def
  IsLowActive_def IsForever_def

lemmas jled_config =
  TJLed_def Init_def On_def Off_def FadeOn_def FadeOff_def Breathe_def Blink_def
  UserFunc_def Repeat_def Forever_def DelayBefore_def DelayAfter_def Invert_def
  LowActive_def Stop_def

lemmas jled_eval =
  jled_config jled_consts jled_flag_ops Update_def Update_effect_def EvalBrightness_def
  AnalogWrite_def Let_def

section \<open>Machine words read as numbers\<close>

lemma unat_u8_bound: "unat (w :: u8) < 256"
  using unsigned_less [of w, where 'a = nat] by simp

lemma unat_u16_bound: "unat (w :: u16) < 65536"
  using unsigned_less [of w, where 'a = nat] by simp

lemma unat_u32_bound: "unat (w :: u32) < 4294967296"
  using unsigned_less [of w, where 'a = nat] by simp

lemma unat_ucast_u16_u32: "unat (ucast (w :: u16) :: u32) = unat w"
proof -
  have "unat w < 2 ^ 32" using unat_u16_bound [of w] by simp
  then show ?thesis by (simp add: unsigned_ucast_eq take_bit_nat_eq_self)
qed

lemma unat_ucast_u8_u32: "unat (ucast (w :: u8) :: u32) = unat w"
proof -
  have "unat w < 2 ^ 32" using unat_u8_bound [of w] by simp
  then show ?thesis by (simp add: unsigned_ucast_eq take_bit_nat_eq_self)
qed

lemma unat_add_u32: "unat (a + b :: u32) = (unat a + unat b) mod 4294967296"
  by (simp add: unat_word_ariths)

lemma unat_mult_u32: "unat (a * b :: u32) = (unat a * unat b) mod 4294967296"
  by (simp add: unat_word_ariths)

text \<open>\<^verbatim>\<open>period_ + delay_after_\<close> is at most 131070 and does not wrap in 32 bits.\<close>

lemma unat_cycle: "unat (ucast (p :: u16) + ucast (d :: u16) :: u32) = unat p + unat d"
  using unat_u16_bound [of p] unat_u16_bound [of d]
  by (simp add: unat_add_u32 unat_ucast_u16_u32)

lemma ucast_sum_eq_0:
  fixes p d :: u16
  shows "((ucast p + ucast d :: u32) = 0) = (p = 0 \<and> d = 0)"
proof -
  have "(unat (ucast p + ucast d :: u32) = 0) = (unat p = 0 \<and> unat d = 0)"
    by (simp add: unat_cycle)
  then show ?thesis by (simp add: unat_eq_0)
qed

lemma uint_word_of_int_u16:
  "0 \<le> k \<Longrightarrow> k < 65536 \<Longrightarrow> uint (word_of_int k :: u16) = k"
  by (simp add: uint_word_of_int)

section \<open>The brightness functions\<close>

lemma kFadeOnTable_sorted: "sorted kFadeOnTable"
  by (simp add: kFadeOnTable_def)

lemma kFadeOnTable_mono:
  "i \<le> j \<Longrightarrow> j < 9 \<Longrightarrow> unat (kFadeOnTable ! i) \<le> unat (kFadeOnTable ! j)"
  using sorted_nth_mono [OF kFadeOnTable_sorted, of i j]
  by (simp add: kFadeOnTable_def word_le_nat_alt)

lemma fade_on_value_upper:
  assumes "s < 256"
  shows "fade_on_value s \<le> unat (kFadeOnTable ! (s div 32 + 1))"
proof -
  define i where "i = s div 32"
  define c where "c = unat (kFadeOnTable ! (i + 1)) - unat (kFadeOnTable ! i)"
  have i: "i < 8" using assms by (simp add: i_def)
  have le: "unat (kFadeOnTable ! i) \<le> unat (kFadeOnTable ! (i + 1))"
    using i by (intro kFadeOnTable_mono) simp_all
  have "s - 32 * i < 32" unfolding i_def by presburger
  then have "(s - 32 * i) * c \<le> c * 32" by simp
  then have "(s - 32 * i) * c div 32 \<le> c * 32 div 32" by (rule div_le_mono)
  then have "(s - 32 * i) * c div 32 \<le> c" by simp
  with le show ?thesis
    by (simp add: fade_on_value_def Let_def i_def [symmetric] c_def)
qed

lemma fade_on_value_less_256: "s < 256 \<Longrightarrow> fade_on_value s < 256"
  using fade_on_value_upper [of s] unat_u8_bound [of "kFadeOnTable ! (s div 32 + 1)"]
  by simp

lemma fade_on_value_step:
  assumes "Suc s < 256"
  shows "fade_on_value s \<le> fade_on_value (Suc s)"
proof (cases "Suc (s mod 32) = 32")
  case False
  then have same: "Suc s div 32 = s div 32" by (simp add: div_Suc mod_Suc)
  have "(s - 32 * (s div 32)) * c div 32 \<le> (Suc s - 32 * (s div 32)) * c div 32" for c
    by (intro div_le_mono mult_le_mono1) simp
  with same show ?thesis by (simp add: fade_on_value_def Let_def)
next
  case True
  then have next_seg: "Suc s div 32 = Suc (s div 32)" by (simp add: div_Suc mod_Suc)
  have "Suc s = 32 * (s div 32) + Suc (s mod 32)" by simp
  with True have start: "Suc s = 32 * Suc (s div 32)" by simp
  from assms have "s < 256" by simp
  then have "fade_on_value s \<le> unat (kFadeOnTable ! (s div 32 + 1))"
    by (rule fade_on_value_upper)
  also have "\<dots> = fade_on_value (Suc s)"
    unfolding fade_on_value_def Let_def next_seg using start by simp
  finally show ?thesis .
qed

lemma fade_on_value_mono:
  "s \<le> s' \<Longrightarrow> s' < 256 \<Longrightarrow> fade_on_value s \<le> fade_on_value s'"
proof (induction s' rule: dec_induct)
  case base
  show ?case by simp
next
  case (step n)
  then have "fade_on_value s \<le> fade_on_value n" by simp
  also have "\<dots> \<le> fade_on_value (Suc n)" using step.prems by (rule fade_on_value_step)
  finally show ?case .
qed


lemma unat_and_255_u32: "unat ((w :: u32) AND 0xff) = unat w mod 256"
proof -
  have "w AND 0xff = take_bit 8 w"
    by (simp add: take_bit_eq_mask mask_eq_exp_minus_1)
  then show ?thesis
    by (simp add: take_bit_eq_mod unat_mod)
qed

lemma unat_push_bit_8_u32: "unat w < 16777216 \<Longrightarrow> unat (push_bit 8 (w :: u32)) = unat w * 256"
proof -
  assume b: "unat w < 16777216"
  have "push_bit 8 w = w * 256" by (simp add: push_bit_eq_mult)
  with b show ?thesis by (simp add: unat_mult_u32)
qed

lemma unat_push_bit_5_u32: "unat w < 134217728 \<Longrightarrow> unat (push_bit 5 (w :: u32)) = unat w * 32"
proof -
  assume b: "unat w < 134217728"
  have "push_bit 5 w = w * 32" by (simp add: push_bit_eq_mult)
  with b show ?thesis by (simp add: unat_mult_u32)
qed

lemma unat_drop_bit_5_u32: "unat (drop_bit 5 (w :: u32)) = unat w div 32"
  by (simp add: drop_bit_eq_div unat_div)

lemma FadeOnFunc_interpolates:
  assumes "unat t + 1 < unat per"
  shows "FadeOnFunc t per x = Inr (of_nat (fade_on_value (unat t * 256 div unat per)))"
    and "unat t * 256 div unat per < 256"
proof -
  define s where "s = unat t * 256 div unat per"
  define ts :: u32 where "ts = (push_bit 8 t div ucast per) AND 0xff"
  define i :: u32 where "i = drop_bit 5 ts"
  define y0 where "y0 = kFadeOnTable ! (s div 32)"
  define y1 where "y1 = kFadeOnTable ! Suc (s div 32)"
  have P: "unat per < 65536" by (rule unat_u16_bound)
  have per0: "per \<noteq> 0" using assms by (auto simp: unat_eq_0 [symmetric])
  have "unat (t + 1) = unat t + 1"
    using assms P by (simp add: unat_add_u32)
  then have guard: "\<not> ucast per \<le> t + 1"
    using assms by (simp add: word_le_nat_alt unat_ucast_u16_u32)
  have "unat t * 256 < unat per * 256" using assms by simp
  then show s256: "unat t * 256 div unat per < 256"
    by (simp add: less_mult_imp_div_less)
  have "unat (push_bit 8 t) = unat t * 256"
    using assms P by (simp add: unat_push_bit_8_u32)
  then have "unat (push_bit 8 t div ucast per) = s"
    by (simp add: unat_div unat_ucast_u16_u32 s_def)
  then have ts: "unat ts = s"
    using s256 by (simp add: ts_def unat_and_255_u32 s_def)
  have i: "unat i = s div 32"
    by (simp add: i_def unat_drop_bit_5_u32 ts)
  have i8: "s div 32 < 8" using s256 by (simp add: s_def)
  then have inb: "unat i + 1 < length kFadeOnTable"
    by (simp add: i kFadeOnTable_def)
  have x0: "unat (push_bit 5 i) = 32 * (s div 32)"
    using i8 by (simp add: unat_push_bit_5_u32 i)
  then have "push_bit 5 i \<le> ts" by (simp add: word_le_nat_alt ts)
  then have a: "unat (ts - push_bit 5 i) = s - 32 * (s div 32)"
    by (simp add: unat_sub ts x0)
  have y01: "unat y0 \<le> unat y1"
    unfolding y0_def y1_def using i8 by (intro kFadeOnTable_mono) simp_all
  then have "(ucast y0 :: u32) \<le> ucast y1"
    by (simp add: word_le_nat_alt unat_ucast_u8_u32)
  then have c: "unat (ucast y1 - ucast y0 :: u32) = unat y1 - unat y0"
    by (simp add: unat_sub unat_ucast_u8_u32)
  have a32: "s - 32 * (s div 32) < 32" by presburger
  have c256: "unat y1 - unat y0 < 256" using unat_u8_bound [of y1] by simp
  have "(s - 32 * (s div 32)) * (unat y1 - unat y0) < 32 * 256"
    using a32 c256 by (intro mult_strict_mono) simp_all
  then have m: "unat ((ts - push_bit 5 i) * (ucast y1 - ucast y0 :: u32))
      = (s - 32 * (s div 32)) * (unat y1 - unat y0)"
    by (simp add: unat_mult_u32 a c)
  have v: "fade_on_value s = (s - 32 * (s div 32)) * (unat y1 - unat y0) div 32 + unat y0"
    by (simp add: fade_on_value_def Let_def y0_def y1_def)
  have v256: "fade_on_value s < 256" using s256 s_def fade_on_value_less_256 by simp
  have "unat (drop_bit 5 ((ts - push_bit 5 i) * (ucast y1 - ucast y0)) + (ucast y0 :: u32))
      = fade_on_value s"
    using v256 by (simp add: unat_add_u32 unat_drop_bit_5_u32 m unat_ucast_u8_u32 v)
  then have "(ucast (drop_bit 5 ((ts - push_bit 5 i) * (ucast y1 - ucast y0)) + (ucast y0 :: u32)) :: u8)
      = of_nat (fade_on_value s)"
    by (metis of_nat_unat)
  then show "FadeOnFunc t per x = Inr (of_nat (fade_on_value (unat t * 256 div unat per)))"
    using guard per0 inb
    by (simp add: FadeOnFunc_def Let_def ts_def [symmetric] i_def [symmetric] i
        y0_def [symmetric] y1_def [symmetric] s_def [symmetric])
qed


lemma FadeOnFunc_total: "\<exists>v. FadeOnFunc t per x = Inr v"
proof -
  have "unat (drop_bit 5 ((push_bit 8 t div ucast per) AND 0xff :: u32)) < 8"
    unfolding unat_drop_bit_5_u32 unat_and_255_u32 by (simp add: less_mult_imp_div_less)
  then have "unat (drop_bit 5 ((push_bit 8 t div ucast per) AND 0xff :: u32)) + 1
      < length kFadeOnTable"
    by (simp add: kFadeOnTable_def)
  moreover have "per = 0 \<Longrightarrow> (ucast per :: u32) \<le> t + 1" by simp
  ultimately show ?thesis
    by (auto simp: FadeOnFunc_def Let_def)
qed

lemma FadeOnFunc_last:
  assumes "unat t + 1 = unat per"
  shows "FadeOnFunc t per x = Inr 255"
proof -
  have "unat (t + 1) = unat t + 1"
    using assms unat_u16_bound [of per] by (simp add: unat_add_u32)
  then have "ucast per \<le> t + 1"
    using assms by (simp add: word_le_nat_alt unat_ucast_u16_u32)
  then show ?thesis by (simp add: FadeOnFunc_def kFullBrightness_def)
qed

lemma u8_le_255: "(v :: u8) \<le> 255"
  using unat_u8_bound [of v] by (simp add: word_le_nat_alt)

text \<open>
  The built-in brightness functions return a value on all arguments, also outside
  \<open>t < period\<close>: the division in \<open>FadeOnFunc\<close> is never reached with period 0, and its
  table index is at most 7.
\<close>

lemma FadeOffFunc_total: "\<exists>v. FadeOffFunc t per x = Inr v"
  by (simp add: FadeOffFunc_def FadeOnFunc_total)

lemma BreatheFunc_total: "\<exists>v. BreatheFunc t per x = Inr v"
  by (simp add: BreatheFunc_def Let_def FadeOnFunc_total FadeOffFunc_total)

lemma builtin_funcs_total:
  "f \<in> {OnFunc, OffFunc, BlinkFunc, FadeOnFunc, FadeOffFunc, BreatheFunc} \<Longrightarrow>
     \<forall>t p x. \<exists>v. f t p x = Inr v"
  using FadeOnFunc_total FadeOffFunc_total BreatheFunc_total
  by (auto simp: OnFunc_def OffFunc_def BlinkFunc_def)

text \<open>
  The terminal tick \<open>t = d - 1\<close>: the fade-on value is 255 for every duration; the
  fade-off value is 0 from duration 24 on.
\<close>

lemma FadeOnFunc_terminal:
  assumes "d \<noteq> 0"
  shows "FadeOnFunc (ucast d - 1) d x = Inr 255"
proof -
  from assms have "0 < unat d" by (simp add: unat_gt_0)
  then have "(1 :: u32) \<le> ucast d"
    by (simp add: word_le_nat_alt unat_ucast_u16_u32)
  then have "unat (ucast d - 1 :: u32) = unat d - 1"
    by (simp add: unat_sub unat_ucast_u16_u32)
  with \<open>0 < unat d\<close> have "unat (ucast d - 1 :: u32) + 1 = unat d" by simp
  then show ?thesis by (rule FadeOnFunc_last)
qed

lemma fade_on_value_small: "s \<le> 10 \<Longrightarrow> fade_on_value s = 0"
  by (simp add: fade_on_value_def kFadeOnTable_def Let_def)

lemma FadeOffFunc_terminal_from_24:
  assumes "24 \<le> unat d"
  shows "FadeOffFunc (ucast d - 1) d x = Inr 0"
proof -
  have one: "ucast d - (ucast d - 1) = (1 :: u32)" by simp
  from assms have lt: "unat (1 :: u32) + 1 < unat d" by simp
  from assms have "256 div unat d \<le> 256 div 24" by (intro div_le_mono2) simp_all
  then have "unat (1 :: u32) * 256 div unat d \<le> 10" by simp
  then have "fade_on_value (unat (1 :: u32) * 256 div unat d) = 0"
    by (rule fade_on_value_small)
  with FadeOnFunc_interpolates(1) [OF lt, of 0] show ?thesis
    by (simp add: FadeOffFunc_def one)
qed

section \<open>One call of Update\<close>

lemma Update_idle: "brightness_func s = None \<Longrightarrow> Update now s = Inr (False, s)"
  by (simp add: Update_def)

lemma Update_same_tick:
  "brightness_func s = Some f \<Longrightarrow> last_update_time s = now \<Longrightarrow> Update now s = Inr (True, s)"
  by (simp add: Update_def)

lemma Update_effect_running:
  "Update_effect now s = Inr (True, s1) \<Longrightarrow>
     brightness_func s1 = brightness_func s \<and> last_update_time s1 = last_update_time s"
  by (auto simp: Update_effect_def AnalogWrite_def SetInDelayAfterPhase_def SetFlags_def Let_def
      split: if_splits sum.splits)

lemma Update_effect_finished:
  "Update_effect now s = Inr (False, s1) \<Longrightarrow> brightness_func s1 = None"
  by (auto simp: Update_effect_def AnalogWrite_def SetInDelayAfterPhase_def SetFlags_def Let_def
      split: if_splits sum.splits)

lemma Update_running:
  "Update now s = Inr (True, s1) \<Longrightarrow>
     brightness_func s1 = brightness_func s \<and> brightness_func s \<noteq> None \<and>
     last_update_time s1 = now"
  by (auto simp: Update_def Let_def split: option.splits if_splits dest!: Update_effect_running)

lemma Update_finished:
  "Update now s = Inr (False, s1) \<Longrightarrow> brightness_func s1 = None"
  by (auto simp: Update_def Let_def split: option.splits if_splits dest!: Update_effect_finished)

lemma Update_effect_keeps:
  "Update_effect now s = Inr (r, s1) \<Longrightarrow>
     num_repetitions s1 = num_repetitions s \<and> period s1 = period s \<and>
     delay_after s1 = delay_after s \<and> delay_before s1 = delay_before s \<and>
     time_start s1 = time_start s \<and> last_update_time s1 = last_update_time s \<and>
     effect_param s1 = effect_param s"
  by (auto simp: Update_effect_def AnalogWrite_def SetInDelayAfterPhase_def SetFlags_def Let_def
      split: if_splits sum.splits)

lemma Update_keeps:
  "Update now s = Inr (r, s1) \<Longrightarrow>
     num_repetitions s1 = num_repetitions s \<and> period s1 = period s \<and>
     delay_after s1 = delay_after s \<and> effect_param s1 = effect_param s"
  by (auto simp: Update_def Let_def split: option.splits if_splits dest!: Update_effect_keeps)

lemma Update_effect_forever:
  "Update_effect now s = Inr (r, s1) \<Longrightarrow> num_repetitions s = kRepeatForever \<Longrightarrow> 
     r \<and> brightness_func s1 = brightness_func s"
  by (auto simp: Update_effect_def AnalogWrite_def SetInDelayAfterPhase_def SetFlags_def Let_def
       IsForever_def split: if_splits sum.splits)

lemma Update_forever:
  "brightness_func s = Some f \<Longrightarrow> num_repetitions s = kRepeatForever \<Longrightarrow>
     Update now s = Inr (r, s1) \<Longrightarrow> r \<and> brightness_func s1 = Some f"
  by (auto simp: Update_def Let_def split: if_splits dest!: Update_effect_forever)

lemma EvalBrightness_defined:
  "brightness_func s = Some f \<Longrightarrow> \<forall>t p x. \<exists>v. f t p x = Inr v \<Longrightarrow>
     \<exists>v. EvalBrightness t s = Inr v"
proof -
  assume a: "brightness_func s = Some f" and b: "\<forall>t p x. \<exists>v. f t p x = Inr v"
  from b obtain v where "f t (period s) (effect_param s) = Inr v" by blast
  with a show ?thesis by (simp add: EvalBrightness_def)
qed

lemma Update_effect_defined:
  assumes "brightness_func s = Some f" and "\<forall>t p x. \<exists>v. f t p x = Inr v"
    and "\<not> (period s = 0 \<and> delay_after s = 0)"
  shows "\<exists>r s1. Update_effect now s = Inr (r, s1)"
proof -
  have e: "\<exists>v. EvalBrightness t (s\<lparr>flags := fl\<rparr>) = Inr v" for t fl
    using assms(1,2) by (intro EvalBrightness_defined) simp_all
  have e0: "\<exists>v. EvalBrightness t s = Inr v" for t
    using assms(1,2) by (rule EvalBrightness_defined)
  have m: "(ucast (period s) + ucast (delay_after s) :: u32) \<noteq> 0"
    using assms(3) by (simp add: ucast_sum_eq_0)
  obtain v0 where v0: "EvalBrightness (ucast (period s) - 1) s = Inr v0" using e0 by blast
  obtain v1 where v1: "EvalBrightness ((now - time_start s) mod (ucast (period s) + ucast (delay_after s)))
      (s\<lparr>flags := flags s AND NOT FL_IN_DELAY_PHASE\<rparr>) = Inr v1" using e by blast
  obtain v2 where v2: "EvalBrightness (ucast (period s) - 1)
      (s\<lparr>flags := flags s OR FL_IN_DELAY_PHASE\<rparr>) = Inr v2" using e by blast
  show ?thesis
    using m v0 v1 v2
    by (auto simp add: Update_effect_def SetInDelayAfterPhase_def SetFlags_def Let_def)
qed

lemma Update_defined:
  assumes "brightness_func s = Some f" and "\<forall>t p x. \<exists>v. f t p x = Inr v"
    and "\<not> (period s = 0 \<and> delay_after s = 0)"
  shows "\<exists>r s1. Update now s = Inr (r, s1)"
  using assms
  by (auto simp: Update_def Let_def intro!: Update_effect_defined [where f = f])

section \<open>Stop\<close>

text \<open>
  C3. \<open>Stop\<close> clears the brightness function and hands the value 0 to \<open>AnalogWrite\<close>,
  which applies the polarity of the pin: the inversion flag plays no part, and the sink
  receives 0 on a high-active pin and 255 on a low-active pin (the value that turns a
  low-active LED off). Nothing else of the object changes.
\<close>

theorem Stop_writes_through_polarity:
  "Stop s = s\<lparr>brightness_func := None,
              port := port s @ [if IsLowActive s then 255 else 0]\<rparr>"
  by (simp add: Stop_def AnalogWrite_def jled_flag_ops kFullBrightness_def)

theorem Stop_writes_through_polarity_witness:
  "port (Stop (LowActive (Invert (TJLed [])))) = [255] \<and>
   port (Stop (Invert (TJLed []))) = [0]"
  using Stop_writes_through_polarity [of "LowActive (Invert (TJLed []))"]
    Stop_writes_through_polarity [of "Invert (TJLed [])"]
  by (simp add: jled_config jled_consts jled_flag_ops)

text \<open>With \<open>LowActive\<close> set, the value that reaches the sink after \<open>Stop\<close> is 255, not 0.\<close>

theorem Stop_low_active_counterexample:
  "port (Stop (LowActive (TJLed []))) = [255] \<and>
   port (Stop (LowActive (TJLed []))) \<noteq> [0]"
  by (simp add: jled_eval)

section \<open>The scenario Blink(500, 500)\<close>

text \<open>
  C7. \<open>Blink 500 500\<close> has period 1000 and on-time 500. With one repetition and no delays,
  the calls at 0, 250, 500, 1000, 1001 do this: 0 and 250 write 255; 500 lies in the
  active phase (500 < 1000, the delay-after marker stays clear) past the on-time and
  writes 0; 1000 reaches the end time, evaluates at \<open>t = period - 1 = 999\<close>, which is past
  the on-time, writes 0, clears the effect and returns false; 1001 finds the controller
  idle, returns false and writes nothing.
\<close>

theorem Blink_500_500_trace:
  "map_sum id (apsnd port) (Updates [0] (Blink 500 500 (TJLed []))) = Inr ([True], [255]) \<and>
   map_sum id (apsnd port) (Updates [0, 250] (Blink 500 500 (TJLed []))) =
     Inr ([True, True], [255, 255]) \<and>
   map_sum id (apsnd (\<lambda>s. (port s, IsInDelayAfterPhase s)))
     (Updates [0, 250, 500] (Blink 500 500 (TJLed []))) =
     Inr ([True, True, True], [255, 255, 0], False) \<and>
   map_sum id (apsnd (\<lambda>s. (port s, brightness_func s)))
     (Updates [0, 250, 500, 1000] (Blink 500 500 (TJLed []))) =
     Inr ([True, True, True, False], [255, 255, 0, 0], None) \<and>
   map_sum id (apsnd port) (Updates [0, 250, 500, 1000, 1001] (Blink 500 500 (TJLed []))) =
     Inr ([True, True, True, False, False], [255, 255, 0, 0])"
  by (simp add: jled_eval BlinkFunc_def)

text \<open>The final evaluation at the call with time 1000 does not write 255.\<close>

theorem Blink_500_500_counterexample:
  "map_sum id (apsnd port) (Updates [0, 250, 500, 1000] (Blink 500 500 (TJLed []))) \<noteq>
     Inr ([True, True, True, False], [255, 255, 0, 255])"
  by (simp add: jled_eval BlinkFunc_def)

section \<open>Clock wrap-around\<close>

text \<open>
  C4. The completion test \<^verbatim>\<open>now >= time_end\<close> compares absolute clock values. A
  \<open>Blink 500 500\<close> whose first \<open>Update\<close> comes 100 ms before the clock wraps has an end
  time that wraps to 900, so that first call already reports the effect finished and
  writes the final value 0; the same call pattern moved to time 0 writes 255 and keeps
  running. A first call at \<open>2 ^ 32 - 1\<close>, the value of \<open>kTimeUndef\<close>, is taken for a
  repeated call in the same tick: it returns true and leaves the object as it was.
\<close>

theorem Update_wraparound_diverges:
  "map_sum id (apsnd port) (Updates [- 100] (Blink 500 500 (TJLed []))) = Inr ([False], [0]) \<and>
   map_sum id (apsnd port) (Updates [0] (Blink 500 500 (TJLed []))) = Inr ([True], [255]) \<and>
   Update (- 1) (Blink 500 500 (TJLed [])) = Inr (True, Blink 500 500 (TJLed []))"
  by (simp add: jled_eval BlinkFunc_def)

section \<open>Definedness of the arithmetic\<close>

text \<open>
  C5. \<open>Blink 0 0\<close> sets the period to 0. Repeated forever and with no delay after, the
  first \<open>Update\<close> skips the completion test and takes the remainder modulo
  \<open>period + delay_after = 0\<close>.
\<close>

theorem Update_modulo_by_zero:
  "Update 0 (Forever (Blink 0 0 (TJLed []))) = Inl DivisionByZero"
  by (simp add: jled_eval BlinkFunc_def)

section \<open>Terminal values of the fades\<close>

text \<open>
  C8. At its terminal tick \<open>t = d - 1\<close> the function \<open>FadeOffFunc\<close> evaluates
  \<open>FadeOnFunc\<close> at \<open>d - t = 1\<close>, not at 0. For the durations 1, 3 and 10 the terminal value
  is 255, 26 and 2, not 0; a \<open>FadeOff 1\<close> run to completion leaves 255 at the sink. (The
  fade-on half holds for every duration, and the fade-off value is 0 for durations from
  24 on: lemmas \<open>FadeOnFunc_terminal\<close> and \<open>FadeOffFunc_terminal_from_24\<close>.)
\<close>

theorem FadeOffFunc_terminal_not_zero:
  "FadeOffFunc 0 1 0 = Inr 255 \<and>
   FadeOffFunc 2 3 0 = Inr 26 \<and>
   FadeOffFunc 9 10 0 = Inr 2 \<and>
   map_sum id (apsnd port) (Updates [0, 1] (FadeOff 1 (TJLed []))) =
     Inr ([True, False], [255, 255])"
  by (simp add: jled_eval FadeOffFunc_def FadeOnFunc_def)

section \<open>Repeated calls within one tick\<close>

text \<open>
  C2. Whatever the state of the controller and the clock value \<open>now\<close>: if a call of
  \<open>Update\<close> returns \<open>r\<close>, a second call with the same \<open>now\<close> returns \<open>r\<close> again and
  leaves the whole object, the sink included, as the first call left it. (A running
  effect is caught by the guard \<^verbatim>\<open>last_update_time_ == now\<close>; an effect the first call
  finished, or an idle controller, by the test of the function pointer.)
\<close>

theorem Update_twice_same_now:
  assumes "Update now s = Inr (r, s1)"
  shows "Update now s1 = Inr (r, s1)"
proof (cases r)
  case True
  with assms have "brightness_func s1 \<noteq> None" "last_update_time s1 = now"
    using Update_running by auto
  with True show ?thesis by (auto simp: Update_same_tick)
next
  case False
  with assms have "brightness_func s1 = None"
    using Update_finished by auto
  with False show ?thesis by (simp add: Update_idle)
qed

theorem Update_twice_same_now_witness:
  "Update 250 (Blink 500 500 (TJLed [])) =
     Inr (True, (Blink 500 500 (TJLed []))
                  \<lparr>port := [255], last_update_time := 250, time_start := 250\<rparr>) \<and>
   Update 250 ((Blink 500 500 (TJLed []))
                  \<lparr>port := [255], last_update_time := 250, time_start := 250\<rparr>) =
     Inr (True, (Blink 500 500 (TJLed []))
                  \<lparr>port := [255], last_update_time := 250, time_start := 250\<rparr>) \<and>
   Update 1000 ((Blink 500 500 (TJLed []))
                  \<lparr>port := [255], last_update_time := 250, time_start := 0\<rparr>) =
     Inr (False, (Blink 500 500 (TJLed []))
                  \<lparr>port := [255, 0], last_update_time := 1000, time_start := 0,
                    brightness_func := None\<rparr>) \<and>
   Update 1000 ((Blink 500 500 (TJLed []))
                  \<lparr>port := [255, 0], last_update_time := 1000, time_start := 0,
                    brightness_func := None\<rparr>) =
     Inr (False, (Blink 500 500 (TJLed []))
                  \<lparr>port := [255, 0], last_update_time := 1000, time_start := 0,
                    brightness_func := None\<rparr>)"
proof -
  have a: "Update 250 (Blink 500 500 (TJLed [])) =
     Inr (True, (Blink 500 500 (TJLed []))
                  \<lparr>port := [255], last_update_time := 250, time_start := 250\<rparr>)"
    by (simp add: jled_eval BlinkFunc_def)
  have b: "Update 1000 ((Blink 500 500 (TJLed []))
                  \<lparr>port := [255], last_update_time := 250, time_start := 0\<rparr>) =
     Inr (False, (Blink 500 500 (TJLed []))
                  \<lparr>port := [255, 0], last_update_time := 1000, time_start := 0,
                    brightness_func := None\<rparr>)"
    by (simp add: jled_eval BlinkFunc_def)
  show ?thesis
    using a b Update_twice_same_now [OF a] Update_twice_same_now [OF b] by simp
qed

section \<open>The delay before the effect\<close>

text \<open>
  C9. Let \<open>delta\<close> be the time elapsed since the previous call (0 on the first call after
  an effect was selected). If \<open>delay_before\<close> is positive and stays positive once
  \<open>delta\<close> is subtracted from it (with 0 as floor), \<open>Update\<close> returns true, the remaining delay
  is the difference, and neither the sink nor the flags change. The brightness function
  is not evaluated: the call succeeds and yields the same object for every function \<open>g\<close>
  in its place, also one that is undefined everywhere.
\<close>

theorem Update_delay_before_pending:
  assumes func: "brightness_func s = Some f"
    and delta: "delta = now - (if last_update_time s = kTimeUndef then now
                               else last_update_time s)"
    and pending: "0 < delay_before s"
    and left: "0 < max 0 (uint (delay_before s) - uint delta)"
  shows "\<exists>s1. Update now s = Inr (True, s1) \<and> port s1 = port s \<and>
           flags s1 = flags s \<and> brightness_func s1 = Some f \<and>
           uint (delay_before s1) = uint (delay_before s) - uint delta \<and>
           (\<forall>g. Update now (s\<lparr>brightness_func := Some g\<rparr>) =
                  Inr (True, s1\<lparr>brightness_func := Some g\<rparr>))"
proof (cases "last_update_time s = now")
  case True
  then have "delta = 0" using delta by simp
  with True func show ?thesis by (simp add: Update_def)
next
  case False
  from left have lt: "uint delta < uint (delay_before s)"
    by (simp add: max_def split: if_splits)
  have "uint (delay_before s) < 65536"
    using uint_bounded [of "delay_before s"] by simp
  with lt have u: "uint (word_of_int (uint (delay_before s) - uint delta) :: u16)
      = uint (delay_before s) - uint delta"
    using uint_nonnegative [of delta] by (intro uint_word_of_int_u16) linarith+
  from lt have m: "max 0 (uint (delay_before s) - uint delta)
      = uint (delay_before s) - uint delta"
    by (simp add: max_def)
  from lt u have pos: "0 < (word_of_int (uint (delay_before s) - uint delta) :: u16)"
    by (simp add: word_less_def)
  show ?thesis
    using False func pending pos u m delta
    by (cases "last_update_time s = kTimeUndef") (simp_all add: Update_def Let_def)
qed

text \<open>\<^verbatim>\<open>On().DelayBefore(100)\<close>, first updated at time 0, at the call with time 50.\<close>

theorem Update_delay_before_pending_witness:
  "brightness_func ((DelayBefore 100 (On (TJLed [])))\<lparr>last_update_time := 0, time_start := 100\<rparr>)
     = Some OnFunc \<and>
   (0 :: u16) < delay_before
     ((DelayBefore 100 (On (TJLed [])))\<lparr>last_update_time := 0, time_start := 100\<rparr>) \<and>
   (\<exists>s1. Update 50 ((DelayBefore 100 (On (TJLed [])))\<lparr>last_update_time := 0, time_start := 100\<rparr>)
            = Inr (True, s1) \<and>
          port s1 = [] \<and> uint (delay_before s1) = 50)"
  using Update_delay_before_pending
    [of "(DelayBefore 100 (On (TJLed [])))\<lparr>last_update_time := 0, time_start := 100\<rparr>"
        OnFunc 50 50]
  by (auto simp add: jled_config jled_consts)

section \<open>Repeating forever\<close>

text \<open>
  C6. With the repeat count \<open>kRepeatForever\<close> (what \<open>Forever\<close> sets) and an effect
  selected, no call pattern finishes the effect: for every list of clock values, in any
  order, a run of \<open>Update\<close> calls that returns has returned true at every call and still
  holds the brightness function. And the run does return, whenever the brightness
  function is defined on all arguments and \<open>period\<close> and \<open>delay_after\<close> are not both 0.
\<close>

theorem Forever_never_finishes:
  assumes "brightness_func s = Some f" and "num_repetitions s = kRepeatForever"
  shows "(\<forall>rs s1. Updates ts s = Inr (rs, s1) \<longrightarrow>
            rs = replicate (length ts) True \<and> brightness_func s1 = Some f) \<and>
         ((\<forall>t p x. \<exists>v. f t p x = Inr v) \<and> \<not> (period s = 0 \<and> delay_after s = 0) \<longrightarrow>
            (\<exists>s1. Updates ts s = Inr (replicate (length ts) True, s1)))"
  using assms
proof (induction ts arbitrary: s)
  case Nil
  then show ?case by simp
next
  case (Cons now ts)
  have fin: "rs = replicate (length (now # ts)) True \<and> brightness_func s2 = Some f"
    if run: "Updates (now # ts) s = Inr (rs, s2)" for rs s2
  proof -
    from run obtain r s1 rs1 where u: "Update now s = Inr (r, s1)"
      and us: "Updates ts s1 = Inr (rs1, s2)" and rs: "rs = r # rs1"
      by (auto split: sum.splits prod.splits)
    from u Cons.prems have r: "r" and f1: "brightness_func s1 = Some f"
      using Update_forever [of s f now r s1] by simp_all
    from u Cons.prems have n1: "num_repetitions s1 = kRepeatForever"
      using Update_keeps [of now s r s1] by simp
    from Cons.IH [OF f1 n1] us have "rs1 = replicate (length ts) True \<and> brightness_func s2 = Some f"
      by blast
    with r rs show ?thesis by simp
  qed
  have run: "\<exists>s2. Updates (now # ts) s = Inr (replicate (length (now # ts)) True, s2)"
    if tot: "\<forall>t p x. \<exists>v. f t p x = Inr v" and nz: "\<not> (period s = 0 \<and> delay_after s = 0)"
  proof -
    from Update_defined [OF Cons.prems(1) tot nz, of now]
    obtain r s1 where u: "Update now s = Inr (r, s1)" by blast
    from u Cons.prems have r: "r" and f1: "brightness_func s1 = Some f"
      using Update_forever [of s f now r s1] by simp_all
    from u Cons.prems nz have n1: "num_repetitions s1 = kRepeatForever"
      and nz1: "\<not> (period s1 = 0 \<and> delay_after s1 = 0)"
      using Update_keeps [of now s r s1] by simp_all
    from Cons.IH [OF f1 n1] tot nz1 obtain s2 where
      "Updates ts s1 = Inr (replicate (length ts) True, s2)" by blast
    with u r show ?thesis by simp
  qed
  from fin run show ?case by blast
qed


theorem Forever_never_finishes_witness:
  "brightness_func (Forever (Blink 500 500 (TJLed []))) = Some BlinkFunc \<and>
   num_repetitions (Forever (Blink 500 500 (TJLed []))) = kRepeatForever \<and>
   (\<exists>s1. Updates [0, 600, 4000000000, 5] (Forever (Blink 500 500 (TJLed []))) =
           Inr ([True, True, True, True], s1))"
  using Forever_never_finishes
    [of "Forever (Blink 500 500 (TJLed []))" BlinkFunc "[0, 600, 4000000000, 5]"]
  by (simp add: jled_config jled_consts BlinkFunc_def)

section \<open>Monotonicity of the fade\<close>

text \<open>
  C10. For every period and all times \<open>t1 \<le> t2 < period\<close> (so the period is at least 1),
  \<open>FadeOnFunc\<close> returns a value at both times, that is, it neither divides by zero nor
  reads outside the 9-entry table, and the value at \<open>t1\<close> is at most the value at \<open>t2\<close>.
  The values are 8-bit words, in 0..255; by \<open>FadeOnFunc_interpolates\<close> the 32-bit result
  is below 256 before it is truncated.
\<close>

theorem FadeOnFunc_monotone:
  assumes "t1 \<le> t2" and "t2 < ucast per"
  shows "\<exists>v1 v2. FadeOnFunc t1 per param = Inr v1 \<and> FadeOnFunc t2 per param = Inr v2 \<and>
           v1 \<le> v2"
proof -
  from assms have T: "unat t1 \<le> unat t2" "unat t2 < unat per"
    by (simp_all add: word_le_nat_alt word_less_nat_alt unat_ucast_u16_u32)
  obtain v1 where v1: "FadeOnFunc t1 per param = Inr v1"
    using FadeOnFunc_total by blast
  show ?thesis
  proof (cases "unat t2 + 1 < unat per")
    case True
    with T have t1: "unat t1 + 1 < unat per" by simp
    let ?s1 = "unat t1 * 256 div unat per" and ?s2 = "unat t2 * 256 div unat per"
    have "?s1 \<le> ?s2" using T by (intro div_le_mono mult_le_mono1)
    moreover have s2: "?s2 < 256" using True by (rule FadeOnFunc_interpolates)
    ultimately have le: "fade_on_value ?s1 \<le> fade_on_value ?s2" and s1: "?s1 < 256"
      by (simp_all add: fade_on_value_mono)
    have "unat (of_nat (fade_on_value ?s1) :: u8) = fade_on_value ?s1"
      using fade_on_value_less_256 [OF s1] by (simp add: unat_of_nat)
    moreover have "unat (of_nat (fade_on_value ?s2) :: u8) = fade_on_value ?s2"
      using fade_on_value_less_256 [OF s2] by (simp add: unat_of_nat)
    ultimately have "(of_nat (fade_on_value ?s1) :: u8) \<le> of_nat (fade_on_value ?s2)"
      using le by (simp add: word_le_nat_alt)
    then show ?thesis
      using FadeOnFunc_interpolates(1) [OF t1, of param]
        FadeOnFunc_interpolates(1) [OF True, of param] by simp
  next
    case False
    with T have "unat t2 + 1 = unat per" by simp
    then have "FadeOnFunc t2 per param = Inr 255" by (rule FadeOnFunc_last)
    with v1 show ?thesis by (simp add: u8_le_255)
  qed
qed

theorem FadeOnFunc_monotone_witness:
  "(100 :: u32) \<le> 700 \<and> (700 :: u32) < ucast (1000 :: u16) \<and>
   FadeOnFunc 100 1000 0 = Inr 2 \<and> FadeOnFunc 700 1000 0 = Inr 154 \<and> (2 :: u8) \<le> 154"
  using FadeOnFunc_monotone [of 100 700 1000 0]
  by (simp add: FadeOnFunc_def jled_consts)


section \<open>The lifetime of a finite effect\<close>

subsection \<open>Arithmetic of the end time and of the remaining delay\<close>

lemma unat_time_end:
  fixes ts :: u32 and p da n :: u16
  assumes "unat ts + unat n * (unat p + unat da) < 4294967296"
  shows "unat (ts + (ucast p + ucast da) * ucast n) = unat ts + unat n * (unat p + unat da)"
proof -
  have lt: "unat n * (unat p + unat da) < 4294967296" using assms by linarith
  have "unat ((ucast p + ucast da) * ucast n :: u32) = ((unat p + unat da) * unat n) mod 4294967296"
    by (simp only: unat_mult_u32 unat_cycle unat_ucast_u16_u32)
  also have "\<dots> = unat n * (unat p + unat da)"
    using lt by (simp add: mult.commute)
  finally have m: "unat ((ucast p + ucast da) * ucast n :: u32) = unat n * (unat p + unat da)" .
  have "unat (ts + (ucast p + ucast da) * ucast n) 
      = (unat ts + unat n * (unat p + unat da)) mod 4294967296"
    by (simp only: unat_add_u32 m)
  with assms show ?thesis by simp
qed

lemma unat_delay_left:
  fixes d :: u16 and delta :: u32
  shows "unat (word_of_int (max 0 (uint d - uint delta)) :: u16) = unat d - unat delta"
proof (cases "uint delta < uint d")
  case True
  have "uint d < 65536" using uint_bounded [of d] by simp
  with True have "uint (word_of_int (uint d - uint delta) :: u16) = uint d - uint delta"
    using uint_nonnegative [of delta] by (intro uint_word_of_int_u16) linarith+
  then have "int (unat (word_of_int (uint d - uint delta) :: u16)) = int (unat d) - int (unat delta)"
    by (simp only: uint_nat)
  then have "unat (word_of_int (uint d - uint delta) :: u16) = unat d - unat delta"
    by linarith
  moreover from True have "max 0 (uint d - uint delta) = uint d - uint delta"
    by (simp add: max_def)
  ultimately show ?thesis by (simp only:)
next
  case False
  then have "unat d \<le> unat delta" by (simp only: uint_nat)
  moreover from False have "max 0 (uint d - uint delta) = 0" by (simp add: max_def)
  ultimately show ?thesis by simp
qed

lemma Update_effect_result:
  "Update_effect now s = Inr (r, s1) \<Longrightarrow>
     r = (IsForever s \<or>
          \<not> time_start s + (ucast (period s) + ucast (delay_after s)) * ucast (num_repetitions s)
             \<le> now)"
  unfolding Update_effect_def Let_def
  by (simp split: if_splits sum.splits)

lemma Update_effect_finishing:
  assumes "brightness_func s = Some f" and "\<forall>t p x. \<exists>v. f t p x = Inr v"
    and "\<not> IsForever s"
    and "time_start s + (ucast (period s) + ucast (delay_after s)) * ucast (num_repetitions s)
           \<le> now"
  shows "\<exists>s1. Update_effect now s = Inr (False, s1) \<and> brightness_func s1 = None"
proof -
  obtain v where v: "EvalBrightness (ucast (period s) - 1) s = Inr v"
    using EvalBrightness_defined [OF assms(1,2)] by blast
  have "Update_effect now s = Inr (False, (AnalogWrite v s)\<lparr>brightness_func := None\<rparr>)"
    unfolding Update_effect_def using assms(3,4) v by (simp only: simp_thms if_True sum.case)
  then show ?thesis by simp
qed

subsection \<open>One call, with an end time that does not wrap\<close>

text \<open>The effect part of \<open>Update\<close>, once the start time has been reached.\<close>

lemma Update_effect_step:
  assumes func: "brightness_func s = Some f" and total: "\<forall>t p x. \<exists>v. f t p x = Inr v"
    and finite: "num_repetitions s \<noteq> kRepeatForever"
    and started: "unat (time_start s) \<le> unat now"
    and T: "T = unat (time_start s)
              + unat (num_repetitions s) * (unat (period s) + unat (delay_after s))"
    and nowrap: "T < 4294967296"
  shows "\<exists>s1. Update_effect now s = Inr (unat now < T, s1) \<and>
           (if unat now < T
            then brightness_func s1 = Some f \<and> last_update_time s1 = last_update_time s \<and>
                 time_start s1 = time_start s \<and> delay_before s1 = delay_before s \<and>
                 num_repetitions s1 = num_repetitions s \<and> period s1 = period s \<and>
                 delay_after s1 = delay_after s
            else brightness_func s1 = None)"
proof -
  define X where "X = unat (num_repetitions s) * (unat (period s) + unat (delay_after s))"
  define te where "te = time_start s
      + (ucast (period s) + ucast (delay_after s)) * ucast (num_repetitions s)"
  have "unat te = unat (time_start s) + X"
    unfolding te_def X_def using nowrap unfolding T by (rule unat_time_end)
  then have cmp: "(te \<le> now) = (T \<le> unat now)"
    unfolding T X_def [symmetric] by (simp only: word_le_nat_alt)
  have nf: "\<not> IsForever s" using finite by (simp add: IsForever_def)
  show ?thesis
  proof (cases "unat now < T")
    case True
    from True started have "0 < X"
      unfolding T X_def [symmetric] by linarith
    then have "\<not> (period s = 0 \<and> delay_after s = 0)"
      unfolding X_def by (auto simp: unat_eq_0 [symmetric])
    from Update_effect_defined [OF func total this, of now]
    obtain r s1 where u: "Update_effect now s = Inr (r, s1)" by blast
    from Update_effect_result [OF u] have "r = (IsForever s \<or> \<not> te \<le> now)"
      unfolding te_def .
    with nf cmp True have r: "r" by simp
    have keeps: "num_repetitions s1 = num_repetitions s \<and> period s1 = period s \<and>
       delay_after s1 = delay_after s \<and> delay_before s1 = delay_before s \<and>
       time_start s1 = time_start s \<and> last_update_time s1 = last_update_time s"
      using Update_effect_keeps [OF u] by blast
    have "brightness_func s1 = Some f"
      using Update_effect_running [of now s s1] u r func by simp
    with u r keeps True show ?thesis by simp
  next
    case False
    then have "te \<le> now" using cmp by simp
    then obtain s1 where "Update_effect now s = Inr (False, s1)" "brightness_func s1 = None"
      using Update_effect_finishing [OF func total nf] unfolding te_def by blast
    with False show ?thesis by simp
  qed
qed

text \<open>
  A call at a new clock value \<open>now\<close>. \<open>L\<close> and \<open>TS\<close> are the time of the previous call and
  the start time as the first-call initialisation leaves them; the remaining delay and
  the start time are related by \<open>TS = L + delay_before\<close> while the delay is pending.
\<close>

lemma Update_step:
  assumes func: "brightness_func s = Some f" and total: "\<forall>t p x. \<exists>v. f t p x = Inr v"
    and finite: "num_repetitions s \<noteq> kRepeatForever"
    and fresh: "last_update_time s \<noteq> now"
    and L: "L = (if last_update_time s = kTimeUndef then now else last_update_time s)"
    and TS: "TS = (if last_update_time s = kTimeUndef then now + ucast (delay_before s)
                   else time_start s)"
    and order: "unat L \<le> unat now"
    and pre: "if delay_before s = 0 then unat TS \<le> unat L
              else unat TS = unat L + unat (delay_before s)"
    and T: "T = unat TS + unat (num_repetitions s) * (unat (period s) + unat (delay_after s))"
    and nowrap: "T < 4294967296"
  shows "\<exists>s1. Update now s = Inr (unat now < T, s1) \<and>
           (if unat now < T
            then brightness_func s1 = Some f \<and> last_update_time s1 = now \<and>
                 time_start s1 = TS \<and> num_repetitions s1 = num_repetitions s \<and>
                 period s1 = period s \<and> delay_after s1 = delay_after s \<and>
                 (if delay_before s1 = 0 then unat TS \<le> unat now
                  else unat TS = unat now + unat (delay_before s1))
            else brightness_func s1 = None)"
proof -
  define dl :: u16 where
    "dl = word_of_int (max 0 (uint (delay_before s) - uint (now - L)))"
  define s2 where "s2 = s\<lparr>time_start := TS, last_update_time := now\<rparr>"
  have L_le: "L \<le> now" using order by (simp add: word_le_nat_alt)
  have delta: "unat (now - L) = unat now - unat L" using L_le by (rule unat_sub)
  have dl: "unat dl = unat (delay_before s) - (unat now - unat L)"
    unfolding dl_def delta [symmetric] by (rule unat_delay_left)
  have s2: "brightness_func s2 = Some f" "num_repetitions s2 = num_repetitions s"
    "period s2 = period s" "delay_after s2 = delay_after s" "time_start s2 = TS"
    "last_update_time s2 = now" "delay_before s2 = delay_before s"
    using func by (simp_all add: s2_def)
  have eq: "Update now s =
      (if 0 < delay_before s
       then if 0 < dl then Inr (True, s2\<lparr>delay_before := dl\<rparr>)
            else Update_effect now (s2\<lparr>delay_before := dl\<rparr>)
       else Update_effect now s2)"
    using func fresh by (simp add: Update_def Let_def s2_def dl_def L TS)
  have effect: "\<exists>s1. Update_effect now s' = Inr (unat now < T, s1) \<and>
           (if unat now < T
            then brightness_func s1 = Some f \<and> last_update_time s1 = now \<and>
                 time_start s1 = TS \<and> num_repetitions s1 = num_repetitions s \<and>
                 period s1 = period s \<and> delay_after s1 = delay_after s \<and>
                 delay_before s1 = 0
            else brightness_func s1 = None)"
    if "s' = s2\<lparr>delay_before := 0\<rparr>" and started: "unat TS \<le> unat now" for s'
  proof -
    have s': "brightness_func s' = Some f" "num_repetitions s' \<noteq> kRepeatForever"
      "unat (time_start s') \<le> unat now"
      "T = unat (time_start s')
              + unat (num_repetitions s') * (unat (period s') + unat (delay_after s'))"
      using that s2 finite T by simp_all
    from Update_effect_step [OF s'(1) total s'(2,3,4) nowrap]
    show ?thesis using that s2 by (auto split: if_splits)
  qed
  show ?thesis
  proof (cases "delay_before s = 0")
    case True
    then have "s2 = s2\<lparr>delay_before := 0\<rparr>" using s2 by simp
    moreover from True pre order have "unat TS \<le> unat now" by simp
    ultimately have "\<exists>s1. Update_effect now s2 = Inr (unat now < T, s1) \<and>
           (if unat now < T
            then brightness_func s1 = Some f \<and> last_update_time s1 = now \<and>
                 time_start s1 = TS \<and> num_repetitions s1 = num_repetitions s \<and>
                 period s1 = period s \<and> delay_after s1 = delay_after s \<and>
                 delay_before s1 = 0
            else brightness_func s1 = None)"
      by (rule effect)
    moreover from True eq have "Update now s = Update_effect now s2" by simp
    moreover note \<open>unat TS \<le> unat now\<close>
    ultimately show ?thesis by (auto split: if_splits)
  next
    case False
    then have pos: "0 < delay_before s" by (simp add: word_greater_zero_iff)
    from False pre have ts: "unat TS = unat L + unat (delay_before s)" by simp
    show ?thesis
    proof (cases "dl = 0")
      case True
      then have "unat (delay_before s) \<le> unat now - unat L"
        using dl by (simp add: unat_eq_0 [symmetric])
      with ts order have started: "unat TS \<le> unat now" by linarith
      from True have "s2\<lparr>delay_before := dl\<rparr> = s2\<lparr>delay_before := 0\<rparr>" by simp
      then have "\<exists>s1. Update_effect now (s2\<lparr>delay_before := dl\<rparr>) = Inr (unat now < T, s1) \<and>
           (if unat now < T
            then brightness_func s1 = Some f \<and> last_update_time s1 = now \<and>
                 time_start s1 = TS \<and> num_repetitions s1 = num_repetitions s \<and>
                 period s1 = period s \<and> delay_after s1 = delay_after s \<and>
                 delay_before s1 = 0
            else brightness_func s1 = None)"
        using started by (rule effect)
      moreover from True pos eq
      have "Update now s = Update_effect now (s2\<lparr>delay_before := dl\<rparr>)" by simp
      ultimately show ?thesis using started by (auto split: if_splits)
    next
      case False
      then have dlpos: "0 < dl" by (simp add: word_greater_zero_iff)
      from False have "0 < unat dl" by (simp add: unat_gt_0)
      with dl have lt: "unat now - unat L < unat (delay_before s)" by linarith
      with ts order have before: "unat now < unat TS" by linarith
      then have "unat now < T" unfolding T by linarith
      moreover from dl lt ts order have "unat TS = unat now + unat dl" by linarith
      moreover from pos dlpos eq
      have "Update now s = Inr (True, s2\<lparr>delay_before := dl\<rparr>)" by simp
      ultimately show ?thesis using s2 False by simp
    qed
  qed
qed

subsection \<open>A run of calls\<close>

lemma unat_kTimeUndef: "unat kTimeUndef = 4294967295"
  by (simp add: kTimeUndef_def unsigned_minus_1_eq_mask mask_eq_exp_minus_1)

lemma Updates_idle:
  "brightness_func s = None \<Longrightarrow> Updates ts s = Inr (replicate (length ts) False, s)"
  by (induction ts) (simp_all add: Update_idle)

lemma sorted_past_end:
  fixes now :: u32
  assumes "sorted (now # ts)" and "T \<le> unat now"
  shows "map (\<lambda>t. unat t < T) ts = replicate (length ts) False"
proof -
  have "\<not> unat t < T" if "t \<in> set ts" for t
  proof -
    from assms(1) that have "now \<le> t" by simp
    then have "unat now \<le> unat t" by (simp add: word_le_nat_alt)
    with assms(2) show ?thesis by simp
  qed
  then show ?thesis by (simp add: map_replicate_const [symmetric])
qed

lemma Updates_after_step:
  assumes step: "Update now s = Inr (unat now < T, s1)"
    and rest_running: "unat now < T \<Longrightarrow>
          \<exists>s2. Updates ts s1 = Inr (map (\<lambda>t. unat t < T) ts, s2) \<and>
               (brightness_func s2 = None) = (\<exists>t\<in>set ts. T \<le> unat t)"
    and finished: "\<not> unat now < T \<Longrightarrow> brightness_func s1 = None"
    and sorted: "sorted (now # ts)"
  shows "\<exists>s2. Updates (now # ts) s = Inr (map (\<lambda>t. unat t < T) (now # ts), s2) \<and>
           (brightness_func s2 = None) = (\<exists>t\<in>set (now # ts). T \<le> unat t)"
proof (cases "unat now < T")
  case True
  from rest_running [OF True] obtain s2 where "Updates ts s1 = Inr (map (\<lambda>t. unat t < T) ts, s2)"
    and "(brightness_func s2 = None) = (\<exists>t\<in>set ts. T \<le> unat t)" by auto
  with step True show ?thesis by simp
next
  case False
  then have idle: "brightness_func s1 = None" by (rule finished)
  from False sorted have "map (\<lambda>t. unat t < T) ts = replicate (length ts) False"
    by (intro sorted_past_end [of now]) simp_all
  with step False idle Updates_idle [OF idle, of ts] show ?thesis by simp
qed

lemma Updates_running:
  assumes func: "brightness_func s = Some f" and total: "\<forall>t p x. \<exists>v. f t p x = Inr v"
    and finite: "num_repetitions s \<noteq> kRepeatForever"
    and pre: "if delay_before s = 0 then unat (time_start s) \<le> unat (last_update_time s)
              else unat (time_start s) = unat (last_update_time s) + unat (delay_before s)"
    and T: "T = unat (time_start s)
              + unat (num_repetitions s) * (unat (period s) + unat (delay_after s))"
    and nowrap: "T < 4294967296"
    and running: "unat (last_update_time s) < T"
    and sorted: "sorted (last_update_time s # ts)"
  shows "\<exists>s2. Updates ts s = Inr (map (\<lambda>t. unat t < T) ts, s2) \<and>
           (brightness_func s2 = None) = (\<exists>t\<in>set ts. T \<le> unat t)"
  using assms
proof (induction ts arbitrary: s)
  case Nil
  then show ?case by simp
next
  case (Cons now ts)
  from Cons.prems(8) have sorted': "sorted (now # ts)" and "last_update_time s \<le> now"
    by simp_all
  then have order: "unat (last_update_time s) \<le> unat now"
    by (simp add: word_le_nat_alt)
  show ?case
  proof (cases "last_update_time s = now")
    case True
    with Cons.prems(1) have step: "Update now s = Inr (True, s)" by (simp add: Update_same_tick)
    from True Cons.prems(7) have lt: "unat now < T" by simp
    have "\<exists>s2. Updates ts s = Inr (map (\<lambda>t. unat t < T) ts, s2) \<and>
               (brightness_func s2 = None) = (\<exists>t\<in>set ts. T \<le> unat t)"
      using Cons.prems(1-7) sorted' True by (intro Cons.IH) simp_all
    with step lt sorted' show ?thesis
      by (intro Updates_after_step [where ?s1.0 = s]) simp_all
  next
    case False
    from Cons.prems(6,7) have "unat (last_update_time s) \<noteq> unat kTimeUndef"
      by (simp add: unat_kTimeUndef)
    then have known: "last_update_time s \<noteq> kTimeUndef" by auto
    from Update_step [OF Cons.prems(1,2,3) False _ _ order, of "time_start s" T]
      known Cons.prems(4,5,6)
    obtain s1 where step: "Update now s = Inr (unat now < T, s1)"
      and post: "if unat now < T
            then brightness_func s1 = Some f \<and> last_update_time s1 = now \<and>
                 time_start s1 = time_start s \<and> num_repetitions s1 = num_repetitions s \<and>
                 period s1 = period s \<and> delay_after s1 = delay_after s \<and>
                 (if delay_before s1 = 0 then unat (time_start s) \<le> unat now
                  else unat (time_start s) = unat now + unat (delay_before s1))
            else brightness_func s1 = None"
      by auto
    have "\<exists>s2. Updates ts s1 = Inr (map (\<lambda>t. unat t < T) ts, s2) \<and>
               (brightness_func s2 = None) = (\<exists>t\<in>set ts. T \<le> unat t)"
      if lt: "unat now < T"
      using post lt Cons.prems(2,3,5,6) sorted'
      by (intro Cons.IH) (simp_all split: if_splits)
    moreover have "brightness_func s1 = None" if "\<not> unat now < T"
      using post that by simp
    ultimately show ?thesis
      using step sorted' by (intro Updates_after_step [where ?s1.0 = s1])
  qed
qed

text \<open>
  C1. Let an effect with a finite repeat count be selected (so \<open>last_update_time\<close> is
  undefined), with a brightness function defined on all arguments, and let \<open>Update\<close> be
  called at \<open>t0\<close> and then at the non-decreasing times \<open>ts\<close>. Let
  \<open>T = t0 + delay_before + num_repetitions * (period + delay_after)\<close>, computed without
  wrap-around. If \<open>T < 2 ^ 32\<close> and \<open>t0\<close> is not the value \<open>2 ^ 32 - 1\<close> that stands for an
  undefined time, every call returns, a call at time \<open>now\<close> returns true exactly when
  \<open>now < T\<close>, so the first call with \<open>now \<ge> T\<close> is the first to return false, and the effect
  is cleared at the end of the run exactly when some call had \<open>now \<ge> T\<close>.
\<close>

theorem Update_finished_at_end_time:
  assumes func: "brightness_func s = Some f" and total: "\<forall>t p x. \<exists>v. f t p x = Inr v"
    and fresh: "last_update_time s = kTimeUndef"
    and finite: "num_repetitions s \<noteq> kRepeatForever"
    and sorted: "sorted (t0 # ts)"
    and t0: "t0 \<noteq> kTimeUndef"
    and T: "T = unat t0 + unat (delay_before s)
              + unat (num_repetitions s) * (unat (period s) + unat (delay_after s))"
    and nowrap: "T < 2 ^ 32"
  shows "\<exists>s1. Updates (t0 # ts) s = Inr (map (\<lambda>now. unat now < T) (t0 # ts), s1) \<and>
           (brightness_func s1 = None) = (\<exists>now\<in>set (t0 # ts). T \<le> unat now)"
proof -
  define TS where "TS = t0 + ucast (delay_before s)"
  from nowrap have nowrap': "T < 4294967296" by simp
  then have "unat t0 + unat (delay_before s) < 4294967296" unfolding T by linarith
  then have ts: "unat TS = unat t0 + unat (delay_before s)"
    by (simp add: TS_def unat_add_u32 unat_ucast_u16_u32)
  have pre: "if delay_before s = 0 then unat TS \<le> unat t0
             else unat TS = unat t0 + unat (delay_before s)"
    using ts by simp
  have T': "T = unat TS + unat (num_repetitions s) * (unat (period s) + unat (delay_after s))"
    unfolding T ts ..
  from fresh t0 have new: "last_update_time s \<noteq> t0" by simp
  have "\<exists>s1. Update t0 s = Inr (unat t0 < T, s1) \<and>
           (if unat t0 < T
            then brightness_func s1 = Some f \<and> last_update_time s1 = t0 \<and>
                 time_start s1 = TS \<and> num_repetitions s1 = num_repetitions s \<and>
                 period s1 = period s \<and> delay_after s1 = delay_after s \<and>
                 (if delay_before s1 = 0 then unat TS \<le> unat t0
                  else unat TS = unat t0 + unat (delay_before s1))
            else brightness_func s1 = None)"
    by (rule Update_step [OF func total finite new _ _ _ pre T' nowrap'])
      (simp_all add: fresh TS_def)
  then obtain s1 where step: "Update t0 s = Inr (unat t0 < T, s1)"
    and post: "if unat t0 < T
            then brightness_func s1 = Some f \<and> last_update_time s1 = t0 \<and>
                 time_start s1 = TS \<and> num_repetitions s1 = num_repetitions s \<and>
                 period s1 = period s \<and> delay_after s1 = delay_after s \<and>
                 (if delay_before s1 = 0 then unat TS \<le> unat t0
                  else unat TS = unat t0 + unat (delay_before s1))
            else brightness_func s1 = None"
    by auto
  have "\<exists>s2. Updates ts s1 = Inr (map (\<lambda>t. unat t < T) ts, s2) \<and>
               (brightness_func s2 = None) = (\<exists>t\<in>set ts. T \<le> unat t)"
    if lt: "unat t0 < T"
    using post lt total finite T' nowrap' sorted
    by (intro Updates_running [where f = f]) (simp_all split: if_splits)
  moreover have "brightness_func s1 = None" if "\<not> unat t0 < T"
    using post that by simp
  ultimately show ?thesis
    using step sorted by (intro Updates_after_step [where ?s1.0 = s1])
qed

theorem Update_finished_at_end_time_witness:
  "sorted [1000, 1000, 1020, 1051, 1700, 2249, 2250, 3000 :: u32] \<and>
   (2250 :: nat) = 1000 + 50 + 2 * (500 + 100) \<and>
   (\<exists>s1. Updates [1000, 1000, 1020, 1051, 1700, 2249, 2250, 3000]
            (Repeat 2 (DelayAfter 100 (DelayBefore 50 (Blink 200 300 (TJLed []))))) =
            Inr ([True, True, True, True, True, True, False, False], s1) \<and>
          brightness_func s1 = None)"
  using Update_finished_at_end_time
    [of "Repeat 2 (DelayAfter 100 (DelayBefore 50 (Blink 200 300 (TJLed []))))" BlinkFunc
        1000 "[1000, 1020, 1051, 1700, 2249, 2250, 3000]" 2250]
  by (simp add: jled_config jled_consts BlinkFunc_def)

text \<open>
  Without the bound on \<open>T\<close> the statement fails: the product
  \<open>(period + delay_after) * num_repetitions\<close> is computed in 32 bits. With period 65535,
  delay after 65535 and 65534 repetitions it wraps to 4294574084, and the call at that
  time finishes the effect, long before \<open>65534 * 131070\<close> ms have passed.
\<close>

theorem Update_lifetime_overflow_counterexample:
  "map_sum id (apsnd port)
     (Updates [0, 4294574084] (Repeat 65534 (DelayAfter 65535 (FadeOn 65535 (TJLed []))))) =
     Inr ([True, False], [0, 255]) \<and>
   (4294574084 :: nat) < 0 + 0 + 65534 * (65535 + 65535)"
  by (simp add: jled_eval FadeOnFunc_def word_le_nat_alt)

end
